theory Spec2Isabelle
  imports
    Complex_Main
    "HOL-Library.Sublist"
    "HOL-Library.Char_ord"
    "HOL-Library.List_Lexorder"
begin

section \<open>Dependency graph analyzer: a shallow embedding\<close>

text \<open>
  The development follows \<^verbatim>\<open>dep-graph-analyzer.py\<close> (class
  \<^verbatim>\<open>DependencyGraphAnalyzer\<close>) and the coverage computation of
  \<^verbatim>\<open>dep-graph-analysis-report.py\<close>.

  Modelling conventions.
  \<^item> Text is a \<open>string\<close> of ASCII characters; the classes \<^verbatim>\<open>\s\<close> and
    \<^verbatim>\<open>\w\<close> are their ASCII parts.
  \<^item> A \<^verbatim>\<open>Path\<close> is absolute and is the list of its segments below the root
    \<^verbatim>\<open>/\<close>. The project root is such a path, as \<^verbatim>\<open>main()\<close> passes one.
  \<^item> The file system is a finite table from paths to objects, without symbolic links,
    so \<^verbatim>\<open>Path.resolve()\<close> is the lexical collapse of \<^verbatim>\<open>..\<close> segments.
  \<^item> A raised \<^verbatim>\<open>ValueError\<close> or \<^verbatim>\<open>ZeroDivisionError\<close> is the left
    injection of a sum type.
\<close>

subsection \<open>Regular expressions of the import patterns\<close>

text \<open>
  The five patterns use literals, the classes \<^verbatim>\<open>\s\<close>, \<^verbatim>\<open>\w\<close>,
  \<^verbatim>\<open>[^}]\<close>, \<^verbatim>\<open>['"]\<close>, \<^verbatim>\<open>[^'"]\<close>, greedy repetition of a class,
  sequence, ordered alternation, a greedy optional group and one capturing group.
  \<open>rx_run\<close> lists the outcomes of a backtracking matcher in the order in which
  Python's \<^verbatim>\<open>re\<close> tries them; the head is the match that \<^verbatim>\<open>re\<close> reports.
\<close>

datatype cls = Space | Word | NotBrace | Quote | NotQuote

definition squote :: char where
  "squote = CHR 0x27"

definition dquote :: char where
  "dquote = CHR 0x22"

fun cls_mem :: "cls \<Rightarrow> char \<Rightarrow> bool" where
  "cls_mem Space c =
     (c \<in> set [CHR '' '', CHR 0x09, CHR 0x0A, CHR 0x0B, CHR 0x0C, CHR 0x0D,
                CHR 0x1C, CHR 0x1D, CHR 0x1E, CHR 0x1F])"
| "cls_mem Word c =
     ((CHR ''a'' \<le> c \<and> c \<le> CHR ''z'') \<or> (CHR ''A'' \<le> c \<and> c \<le> CHR ''Z'')
      \<or> (CHR ''0'' \<le> c \<and> c \<le> CHR ''9'') \<or> c = CHR ''_'')"
| "cls_mem NotBrace c = (c \<noteq> CHR ''}'')"
| "cls_mem Quote c = (c = squote \<or> c = dquote)"
| "cls_mem NotQuote c = (c \<noteq> squote \<and> c \<noteq> dquote)"

datatype rx =
    Lit string
  | One cls
  | Rep cls nat
  | Seq rx rx
  | Alt rx rx
  | Opt rx
  | Grp rx

text \<open>\<open>Rep c n\<close> is the greedy repetition of class \<open>c\<close>, at least \<open>n\<close> times:
  \<^verbatim>\<open>c*\<close> is \<open>Rep c 0\<close> and \<^verbatim>\<open>c+\<close> is \<open>Rep c 1\<close>.\<close>

type_synonym mstate = "string option \<times> string"

fun rx_run :: "rx \<Rightarrow> mstate \<Rightarrow> mstate list" where
  "rx_run (Lit l) (g, s) = (if prefix l s then [(g, drop (length l) s)] else [])"
| "rx_run (One c) (g, s) =
     (case s of [] \<Rightarrow> [] | x # t \<Rightarrow> if cls_mem c x then [(g, t)] else [])"
| "rx_run (Rep c n) (g, s) =
     map (\<lambda>k. (g, drop k s)) (rev [n ..< Suc (length (takeWhile (cls_mem c) s))])"
| "rx_run (Seq a b) st = concat (map (rx_run b) (rx_run a st))"
| "rx_run (Alt a b) st = rx_run a st @ rx_run b st"
| "rx_run (Opt a) st = rx_run a st @ [st]"
| "rx_run (Grp a) (g, s) =
     map (\<lambda>(g', r). (Some (take (length s - length r) s), r)) (rx_run a (g, s))"

fun seqs :: "rx list \<Rightarrow> rx" where
  "seqs [] = Lit []"
| "seqs [r] = r"
| "seqs (r # rs) = Seq r (seqs rs)"

text \<open>\<^verbatim>\<open>pattern.findall(content)\<close> for a pattern with one group: scan from the left,
  report the group of the first match at the leftmost position, continue behind the match.
  After an empty match the scan moves on by one character.\<close>

function findall :: "rx \<Rightarrow> string \<Rightarrow> string list" where
  "findall r s =
     (case rx_run r (None, s) of
        [] \<Rightarrow> (case s of [] \<Rightarrow> [] | x # t \<Rightarrow> findall r t)
      | (g, rest) # others \<Rightarrow>
          (case g of None \<Rightarrow> [] | Some m \<Rightarrow> m) #
          (if length rest < length s then findall r rest
           else (case s of [] \<Rightarrow> [] | x # t \<Rightarrow> findall r t)))"
  by pat_completeness auto
termination
  by (relation "measure (\<lambda>(r, s). length s)") auto

declare findall.simps [simp del]

text \<open>The table \<^verbatim>\<open>self.import_patterns\<close>, in the dictionary's insertion order.\<close>

definition quoted_path :: "rx list" where
  "quoted_path = [One Quote, Grp (Rep NotQuote 1), One Quote]"

definition static_import :: rx where
  "static_import = seqs ([Lit ''import'', Rep Space 1,
     Opt (seqs [Alt (seqs [Lit ''{'', Rep NotBrace 0, Lit ''}''])
                  (Alt (seqs [Lit ''*'', Rep Space 1, Lit ''as'', Rep Space 1, Rep Word 1])
                       (Rep Word 1)),
                Rep Space 1, Lit ''from'', Rep Space 1])] @ quoted_path)"

definition dynamic_import :: rx where
  "dynamic_import = seqs ([Lit ''import'', Rep Space 0, Lit ''('', Rep Space 0] @ quoted_path
     @ [Rep Space 0, Lit '')''])"

definition lazy_import :: rx where
  "lazy_import = seqs ([Lit ''React.lazy'', Rep Space 0, Lit ''('', Rep Space 0, Lit ''('',
     Rep Space 0, Lit '')'', Rep Space 0, Lit ''=>'', Rep Space 0, Lit ''import'', Rep Space 0,
     Lit ''('', Rep Space 0] @ quoted_path @ [Rep Space 0, Lit '')'', Rep Space 0, Lit '')''])"

definition require :: rx where
  "require = seqs ([Lit ''require'', Rep Space 0, Lit ''('', Rep Space 0] @ quoted_path
     @ [Rep Space 0, Lit '')''])"

definition export_from :: rx where
  "export_from = seqs ([Lit ''export'', Rep Space 1,
     Alt (seqs [Lit ''{'', Rep NotBrace 0, Lit ''}'']) (Lit ''*''),
     Rep Space 1, Lit ''from'', Rep Space 1] @ quoted_path)"

definition import_patterns :: "(string \<times> rx) list" where
  "import_patterns =
     [(''static_import'', static_import),
      (''dynamic_import'', dynamic_import),
      (''lazy_import'', lazy_import),
      (''require'', require),
      (''export_from'', export_from)]"

subsection \<open>Paths\<close>

datatype error = ValueError | ZeroDivisionError

type_synonym path = "string list"

fun split_slash :: "string \<Rightarrow> string list" where
  "split_slash [] = [[]]"
| "split_slash (c # cs) =
     (if c = CHR ''/'' then [] # split_slash cs
      else (case split_slash cs of [] \<Rightarrow> [[c]] | w # ws \<Rightarrow> (c # w) # ws))"

text \<open>Parsing a path string drops empty segments and \<^verbatim>\<open>.\<close> segments.\<close>

definition parse_segments :: "string \<Rightarrow> path" where
  "parse_segments s = filter (\<lambda>x. x \<noteq> [] \<and> x \<noteq> ''.'') (split_slash s)"

text \<open>\<^verbatim>\<open>base / s\<close>: a string that starts with a slash replaces the base.\<close>

definition joinpath :: "path \<Rightarrow> string \<Rightarrow> path" where
  "joinpath base s = (if prefix ''/'' s then parse_segments s else base @ parse_segments s)"

text \<open>\<^verbatim>\<open>Path.resolve()\<close> without symbolic links: each \<^verbatim>\<open>..\<close> removes the segment
  before it, and stays at the root when there is none.\<close>

definition resolve :: "path \<Rightarrow> path" where
  "resolve p = foldl (\<lambda>acc seg. if seg = ''..'' then butlast acc else acc @ [seg]) [] p"

definition parent :: "path \<Rightarrow> path" where
  "parent p = butlast p"

text \<open>\<^verbatim>\<open>PurePath.suffix\<close>: the part of the name from its last dot, when that dot is
  neither the first nor the last character of the name.\<close>

definition py_suffix :: "string \<Rightarrow> string" where
  "py_suffix name =
     (let ext = rev (takeWhile (\<lambda>c. c \<noteq> CHR ''.'') (rev name))
      in if CHR ''.'' \<in> set name \<and> ext \<noteq> [] \<and> length ext + 1 < length name
         then CHR ''.'' # ext else [])"

definition with_suffix_name :: "string \<Rightarrow> string \<Rightarrow> string" where
  "with_suffix_name name ext =
     (if py_suffix name = [] then name @ ext
      else take (length name - length (py_suffix name)) name @ ext)"

definition with_suffix :: "path \<Rightarrow> string \<Rightarrow> error + path" where
  "with_suffix p ext =
     (if CHR ''/'' \<in> set ext then Inl ValueError
      else if (ext \<noteq> [] \<and> \<not> prefix ''.'' ext) \<or> ext = ''.'' then Inl ValueError
      else if p = [] then Inl ValueError
      else Inr (butlast p @ [with_suffix_name (last p) ext]))"

definition relative_to :: "path \<Rightarrow> path \<Rightarrow> error + path" where
  "relative_to p other = (if prefix other p then Inr (drop (length other) p) else Inl ValueError)"

fun join_slash :: "string list \<Rightarrow> string" where
  "join_slash [] = []"
| "join_slash [x] = x"
| "join_slash (x # xs) = x @ ''/'' @ join_slash xs"

text \<open>\<^verbatim>\<open>str\<close> of a relative path; the empty relative path prints as a dot.\<close>

definition path_str :: "path \<Rightarrow> string" where
  "path_str rel = (if rel = [] then ''.'' else join_slash rel)"

subsection \<open>File system\<close>

datatype fobj = Dir | File string

type_synonym fs = "(path \<times> fobj) list"

definition fs_exists :: "fs \<Rightarrow> path \<Rightarrow> bool" where
  "fs_exists fs p = (map_of fs p \<noteq> None)"

definition is_dir :: "fs \<Rightarrow> path \<Rightarrow> bool" where
  "is_dir fs p = (map_of fs p = Some Dir)"

text \<open>Reading fails on a directory and on a missing file.\<close>

definition read_text :: "fs \<Rightarrow> path \<Rightarrow> string option" where
  "read_text fs p = (case map_of fs p of Some (File c) \<Rightarrow> Some c | _ \<Rightarrow> None)"

definition fs_paths :: "fs \<Rightarrow> path list" where
  "fs_paths fs = remdups (map fst fs)"

text \<open>\<^verbatim>\<open>d.rglob('*' + ext)\<close>: every entry strictly below \<open>d\<close> whose name ends in
  \<open>ext\<close>. \<^verbatim>\<open>d.glob('*' + ext)\<close>: the same among the children of \<open>d\<close>.\<close>

definition rglob :: "fs \<Rightarrow> path \<Rightarrow> string \<Rightarrow> path list" where
  "rglob fs d ext = filter (\<lambda>p. strict_prefix d p \<and> suffix ext (last p)) (fs_paths fs)"

definition glob :: "fs \<Rightarrow> path \<Rightarrow> string \<Rightarrow> path list" where
  "glob fs d ext = filter (\<lambda>p. p \<noteq> [] \<and> butlast p = d \<and> suffix ext (last p)) (fs_paths fs)"

subsection \<open>The analyzer\<close>

definition src_root :: "path \<Rightarrow> path" where
  "src_root project_root = project_root @ [''src'']"

definition file_type_patterns :: "(string \<times> string list) list" where
  "file_type_patterns =
     [(''entry'', [''main.tsx'', ''main.ts'', ''index.html'']),
      (''test'', [''.test.'', ''.spec.'', ''__tests__'']),
      (''config'', [''config.'', ''setup.'', ''.config.'']),
      (''type'', [''.d.ts'', ''types.ts''])]"

definition extensions :: "string list" where
  "extensions = [''.ts'', ''.tsx'', ''.js'', ''.jsx'']"

definition get_all_source_files :: "fs \<Rightarrow> path \<Rightarrow> path list" where
  "get_all_source_files fs project_root =
     sort (concat (map (rglob fs (src_root project_root)) extensions)
           @ concat (map (glob fs project_root) extensions))"

text \<open>The loop over \<^verbatim>\<open>file_type_patterns.items()\<close>: the first type one of whose
  patterns occurs in the relative path.\<close>

fun match_patterns :: "(string \<times> string list) list \<Rightarrow> string \<Rightarrow> string option" where
  "match_patterns [] rel = None"
| "match_patterns ((file_type, patterns) # rest) rel =
     (if list_ex (\<lambda>pattern. sublist pattern rel) patterns then Some file_type
      else match_patterns rest rel)"

text \<open>\<^verbatim>\<open>file_path.parts\<close> of an absolute path is the root \<^verbatim>\<open>/\<close> followed by the
  segments; the root equals none of the directory names tested.\<close>

definition classify_by_directory :: "path \<Rightarrow> string" where
  "classify_by_directory parts =
     (if ''components'' \<in> set parts then ''component''
      else if ''services'' \<in> set parts \<or> ''api'' \<in> set parts then ''service''
      else if ''utils'' \<in> set parts \<or> ''lib'' \<in> set parts then ''utility''
      else if ''pages'' \<in> set parts then ''page''
      else if ''hooks'' \<in> set parts then ''hook''
      else if ''context'' \<in> set parts \<or> ''providers'' \<in> set parts then ''context''
      else if ''features'' \<in> set parts then ''feature''
      else ''module'')"

definition classify_file_type :: "path \<Rightarrow> path \<Rightarrow> error + string" where
  "classify_file_type project_root file_path =
     (case relative_to file_path project_root of
        Inl e \<Rightarrow> Inl e
      | Inr rel \<Rightarrow>
          (case match_patterns file_type_patterns (path_str rel) of
             Some file_type \<Rightarrow> Inr file_type
           | None \<Rightarrow> Inr (classify_by_directory file_path)))"

text \<open>The path that \<^verbatim>\<open>resolve_import_path\<close> probes, for an import path that is not
  skipped as an external package.\<close>

definition resolved_path :: "path \<Rightarrow> string \<Rightarrow> path \<Rightarrow> path" where
  "resolved_path project_root import_path from_file =
     (if prefix ''@/'' import_path
      then resolve (joinpath (src_root project_root) (drop 2 import_path))
      else resolve (joinpath (parent from_file) import_path))"

text \<open>The direct-file loop: \<^verbatim>\<open>with_suffix\<close> raises before anything is collected.\<close>

fun direct_matches :: "fs \<Rightarrow> path \<Rightarrow> string list \<Rightarrow> error + path list" where
  "direct_matches fs rp [] = Inr []"
| "direct_matches fs rp (ext # exts) =
     (case with_suffix rp ext of
        Inl e \<Rightarrow> Inl e
      | Inr candidate \<Rightarrow>
          (case direct_matches fs rp exts of
             Inl e \<Rightarrow> Inl e
           | Inr ps \<Rightarrow> Inr (if fs_exists fs candidate then candidate # ps else ps)))"

definition index_matches :: "fs \<Rightarrow> path \<Rightarrow> string list \<Rightarrow> path list" where
  "index_matches fs rp exts =
     (if is_dir fs rp
      then filter (fs_exists fs) (map (\<lambda>ext. rp @ [''index'' @ ext]) exts)
      else [])"

definition resolve_import_path :: "fs \<Rightarrow> path \<Rightarrow> string \<Rightarrow> path \<Rightarrow> error + path option" where
  "resolve_import_path fs project_root import_path from_file =
     (if \<not> prefix ''.'' import_path \<and> \<not> prefix ''@/'' import_path then Inr None
      else
        let rp = resolved_path project_root import_path from_file in
        (case direct_matches fs rp extensions of
           Inl e \<Rightarrow> Inl e
         | Inr direct \<Rightarrow>
             Inr (find (fs_exists fs) (direct @ index_matches fs rp extensions))))"

record import_info =
  from_file :: string
  to_file :: string
  import_type :: string
  import_name :: "string option"
  is_external :: bool

record file_node =
  node_id :: string
  node_type :: string
  imports_count :: nat
  imported_by :: nat
  is_orphaned :: bool

text \<open>The field \<open>imports_count\<close> is the attribute \<^verbatim>\<open>imports\<close> of
  \<^verbatim>\<open>FileNode\<close>, and \<open>node_id\<close>, \<open>node_type\<close> are \<^verbatim>\<open>id\<close> and
  \<^verbatim>\<open>type\<close>.\<close>

text \<open>The value of the local variable \<^verbatim>\<open>imp_type\<close>, computed from the key of the
  pattern that matched (lines 172 to 177).\<close>

definition imp_type :: "string \<Rightarrow> string" where
  "imp_type pattern_key =
     (if pattern_key = ''dynamic_import'' \<or> pattern_key = ''lazy_import'' then ''dynamic''
      else if pattern_key = ''export_from'' then ''re-export''
      else ''static'')"

text \<open>One pass of the inner loop body of \<^verbatim>\<open>extract_imports_from_file\<close>, for the
  pattern key \<open>pattern_key\<close> and one captured import path. A resolved path outside the
  project root makes \<^verbatim>\<open>relative_to\<close> raise.\<close>

definition import_record ::
  "fs \<Rightarrow> path \<Rightarrow> path \<Rightarrow> string \<Rightarrow> string \<Rightarrow> string \<Rightarrow> error + import_info" where
  "import_record fs project_root file_path relative_from pattern_key import_path =
     (case resolve_import_path fs project_root import_path file_path of
        Inl e \<Rightarrow> Inl e
      | Inr (Some rp) \<Rightarrow>
          (case relative_to rp project_root of
             Inl e \<Rightarrow> Inl e
           | Inr rel \<Rightarrow>
               Inr \<lparr>from_file = relative_from,
                    to_file = path_str rel,
                    import_type = imp_type pattern_key,
                    import_name = Some import_path,
                    is_external = False\<rparr>)
      | Inr None \<Rightarrow>
          Inr \<lparr>from_file = relative_from,
               to_file = import_path,
               import_type = ''static'',
               import_name = Some import_path,
               is_external = True\<rparr>)"

text \<open>A loop whose body may raise: the first error ends it.\<close>

fun map_err :: "('a \<Rightarrow> error + 'b) \<Rightarrow> 'a list \<Rightarrow> error + 'b list" where
  "map_err f [] = Inr []"
| "map_err f (x # xs) =
     (case f x of
        Inl e \<Rightarrow> Inl e
      | Inr y \<Rightarrow> (case map_err f xs of Inl e \<Rightarrow> Inl e | Inr ys \<Rightarrow> Inr (y # ys)))"

text \<open>The matches of all patterns on a text, in the order of the two nested loops.\<close>

definition pattern_matches :: "string \<Rightarrow> (string \<times> string) list" where
  "pattern_matches content =
     concat (map (\<lambda>(pattern_key, pattern). map (Pair pattern_key) (findall pattern content))
       import_patterns)"

text \<open>A file that cannot be read yields no records. The cache
  \<^verbatim>\<open>self.file_contents\<close> is written here and read nowhere; it is left out.\<close>

definition extract_imports_from_file :: "fs \<Rightarrow> path \<Rightarrow> path \<Rightarrow> error + import_info list" where
  "extract_imports_from_file fs project_root file_path =
     (case read_text fs file_path of
        None \<Rightarrow> Inr []
      | Some content \<Rightarrow>
          (case relative_to file_path project_root of
             Inl e \<Rightarrow> Inl e
           | Inr rel \<Rightarrow>
               map_err (\<lambda>(pattern_key, import_path).
                   import_record fs project_root file_path (path_str rel) pattern_key import_path)
                 (pattern_matches content)))"

subsection \<open>Building the graph\<close>

text \<open>A Python dictionary keeps insertion order; assigning to a present key keeps its
  place.\<close>

fun dict_set :: "'k \<Rightarrow> 'v \<Rightarrow> ('k \<times> 'v) list \<Rightarrow> ('k \<times> 'v) list" where
  "dict_set k v [] = [(k, v)]"
| "dict_set k v ((k', v') # d) =
     (if k = k' then (k, v) # d else (k', v') # dict_set k v d)"

record analyzer =
  nodes :: "(string \<times> file_node) list"
  edges :: "import_info list"

fun create_nodes ::
  "path \<Rightarrow> path list \<Rightarrow> (string \<times> file_node) list \<Rightarrow> error + (string \<times> file_node) list" where
  "create_nodes project_root [] d = Inr d"
| "create_nodes project_root (file_path # rest) d =
     (case relative_to file_path project_root of
        Inl e \<Rightarrow> Inl e
      | Inr rel \<Rightarrow>
          (case classify_file_type project_root file_path of
             Inl e \<Rightarrow> Inl e
           | Inr file_type \<Rightarrow>
               create_nodes project_root rest
                 (dict_set (path_str rel)
                    \<lparr>node_id = path_str rel, node_type = file_type, imports_count = 0,
                     imported_by = 0, is_orphaned = False\<rparr> d)))"

text \<open>The two \<^verbatim>\<open>defaultdict(int)\<close> tallies are total functions with default 0.\<close>

definition tally :: "import_info \<Rightarrow> (string \<Rightarrow> nat) \<times> (string \<Rightarrow> nat) \<Rightarrow> (string \<Rightarrow> nat) \<times> (string \<Rightarrow> nat)" where
  "tally edge counts =
     (case counts of (import_counts, imported_by_counts) \<Rightarrow>
        if \<not> is_external edge
        then (import_counts(from_file edge := import_counts (from_file edge) + 1),
              imported_by_counts(to_file edge := imported_by_counts (to_file edge) + 1))
        else (import_counts, imported_by_counts))"

definition update_node :: "(string \<Rightarrow> nat) \<times> (string \<Rightarrow> nat) \<Rightarrow> string \<times> file_node \<Rightarrow> string \<times> file_node" where
  "update_node counts entry =
     (case counts of (import_counts, imported_by_counts) \<Rightarrow>
      case entry of (key, node) \<Rightarrow>
        (key, node\<lparr>imports_count := import_counts key,
                   imported_by := imported_by_counts key,
                   is_orphaned := (imported_by_counts key = 0
                                   \<and> node_type node \<notin> set [''entry'', ''test''])\<rparr>))"

definition build_dependency_graph :: "fs \<Rightarrow> path \<Rightarrow> error + analyzer" where
  "build_dependency_graph fs project_root =
     (let source_files = get_all_source_files fs project_root in
      case create_nodes project_root source_files [] of
        Inl e \<Rightarrow> Inl e
      | Inr created \<Rightarrow>
          (case map_err (extract_imports_from_file fs project_root) source_files of
             Inl e \<Rightarrow> Inl e
           | Inr per_file \<Rightarrow>
               let all_edges = concat per_file;
                   counts = fold tally all_edges (\<lambda>k. 0, \<lambda>k. 0)
               in Inr \<lparr>nodes = map (update_node counts) created, edges = all_edges\<rparr>))"

subsection \<open>The graph document\<close>

record graph_stats =
  totalFiles :: nat
  totalImports :: nat
  orphanedFiles :: nat
  externalDependencies :: nat
  entryPoints :: nat
  fileTypes :: "string \<Rightarrow> nat option"

record graph_document =
  doc_nodes :: "file_node list"
  doc_edges :: "import_info list"
  doc_stats :: graph_stats
  doc_orphanedFiles :: "string list"

definition generate_json_output :: "analyzer \<Rightarrow> graph_document" where
  "generate_json_output a =
     (let internal_edges = filter (\<lambda>edge. \<not> is_external edge) (edges a);
          node_values = map snd (nodes a);
          orphaned_files = filter is_orphaned node_values
      in \<lparr>doc_nodes = node_values,
          doc_edges = internal_edges,
          doc_stats =
            \<lparr>totalFiles = length (nodes a),
             totalImports = length internal_edges,
             orphanedFiles = length orphaned_files,
             externalDependencies = length (filter is_external (edges a)),
             entryPoints = length (filter (\<lambda>n. node_type n = ''entry'') node_values),
             fileTypes = (\<lambda>file_type.
               if file_type \<in> set (map node_type node_values)
               then Some (length (filter (\<lambda>n. node_type n = file_type) node_values))
               else None)\<rparr>,
          doc_orphanedFiles = map node_id orphaned_files\<rparr>)"

subsection \<open>The diagram text\<close>

text \<open>\<^verbatim>\<open>s.replace(old, new)\<close>: every occurrence of \<open>old\<close>, found from the left
  without overlap, becomes \<open>new\<close>; an empty \<open>old\<close> occurs before every character
  and at the end.\<close>

function str_replace :: "string \<Rightarrow> string \<Rightarrow> string \<Rightarrow> string" where
  "str_replace old new s =
     (if old = [] then new @ concat (map (\<lambda>c. c # new) s)
      else (case s of
              [] \<Rightarrow> []
            | c # t \<Rightarrow>
                if prefix old s then new @ str_replace old new (drop (length old) s)
                else c # str_replace old new t))"
  by pat_completeness auto
termination
  by (relation "measure (\<lambda>(old, new, s). length s)") auto

declare str_replace.simps [simp del]

text \<open>The decimal numeral of a natural number, as an f-string prints it.\<close>

function str_nat :: "nat \<Rightarrow> string" where
  "str_nat n =
     (if n < 10 then [char_of (48 + n)]
      else str_nat (n div 10) @ [char_of (48 + n mod 10)])"
  by pat_completeness auto
termination
  by (relation "measure id") auto

declare str_nat.simps [simp del]

fun join_lines :: "string list \<Rightarrow> string" where
  "join_lines [] = []"
| "join_lines [x] = x"
| "join_lines (x # xs) = x @ [CHR 0x0A] @ join_lines xs"

definition clean_name :: "string \<Rightarrow> string" where
  "clean_name file_id =
     str_replace ''.ts'' [] (str_replace ''.tsx'' [] (str_replace ''src/'' [] file_id))"

text \<open>The lines that the first loop of \<^verbatim>\<open>generate_mermaid_output\<close> appends for the
  file numbered \<open>i\<close>; a file that is no node gets no line.\<close>

definition node_lines :: "(string \<times> file_node) list \<Rightarrow> nat \<times> string \<Rightarrow> string list" where
  "node_lines d numbered =
     (case numbered of (i, file_id) \<Rightarrow>
        let diagram_id = ''N'' @ str_nat i in
        (case map_of d file_id of
           None \<Rightarrow> []
         | Some node \<Rightarrow>
             if node_type node = ''entry''
             then [''    '' @ diagram_id @ ''['' @ [dquote] @ clean_name file_id @ [dquote] @ '']'',
                   ''    '' @ diagram_id @ '' --> '' @ diagram_id]
             else if node_type node = ''component''
             then [''    '' @ diagram_id @ ''(('' @ [dquote] @ clean_name file_id @ [dquote] @ ''))'']
             else [''    '' @ diagram_id @ ''['' @ [dquote] @ clean_name file_id @ [dquote] @ '']'']))"

definition edge_lines :: "(string \<times> string) list \<Rightarrow> import_info \<Rightarrow> string list" where
  "edge_lines node_mapping edge =
     (case map_of node_mapping (from_file edge) of
        None \<Rightarrow> []
      | Some from_node \<Rightarrow>
          (case map_of node_mapping (to_file edge) of
             None \<Rightarrow> []
           | Some to_node \<Rightarrow>
               if import_type edge = ''dynamic''
               then [''    '' @ from_node @ '' -.-> '' @ to_node]
               else [''    '' @ from_node @ '' --> '' @ to_node]))"

definition generate_mermaid_output :: "analyzer \<Rightarrow> string" where
  "generate_mermaid_output a =
     (let internal_edges = filter (\<lambda>edge. \<not> is_external edge) (edges a);
          node_values = map snd (nodes a);
          entry_points = map node_id (filter (\<lambda>n. node_type n = ''entry'') node_values);
          high_import_files = map node_id (filter (\<lambda>n. 5 < imports_count n) node_values);
          important_files =
            entry_points
            @ map to_file (filter (\<lambda>edge. from_file edge \<in> set entry_points) internal_edges)
            @ high_import_files;
          numbered = enumerate 0 (sort (remdups important_files));
          node_mapping = map (\<lambda>(i, file_id). (file_id, ''N'' @ str_nat i)) numbered
      in join_lines ([''graph TD'']
           @ concat (map (node_lines (nodes a)) numbered)
           @ concat (map (edge_lines node_mapping) internal_edges)))"

subsection \<open>Writing the outputs\<close>

datatype written = JsonFile graph_document | TextFile string

text \<open>\<^verbatim>\<open>save_outputs\<close> computes each output and writes it with no step in between;
  the result is the list of the files written, in order, with their contents. The summary
  printed afterwards is left out.\<close>

definition save_outputs :: "analyzer \<Rightarrow> (string \<times> written) list" where
  "save_outputs a =
     (let json_output = generate_json_output a;
          mermaid_output = generate_mermaid_output a
      in [(''dep-graph.json'', JsonFile json_output), (''dep-graph.mmd'', TextFile mermaid_output)])"

subsection \<open>The coverage ratio of the report\<close>

text \<open>Python's \<^verbatim>\<open>/\<close> raises on a zero divisor; the quotient of two lengths is taken as
  the exact rational.\<close>

definition py_truediv :: "nat \<Rightarrow> nat \<Rightarrow> error + rat" where
  "py_truediv a b = (if b = 0 then Inl ZeroDivisionError else Inr (of_nat a / of_nat b))"

text \<open>The dictionary \<^verbatim>\<open>nodes\<close> of \<^verbatim>\<open>analyze_dependency_graph\<close>, keyed by node id.\<close>

definition report_nodes :: "graph_document \<Rightarrow> (string \<times> file_node) list" where
  "report_nodes graph_data = fold (\<lambda>node d. dict_set (node_id node) node d) (doc_nodes graph_data) []"

definition source_files_of :: "graph_document \<Rightarrow> file_node list" where
  "source_files_of graph_data =
     filter (\<lambda>node. node_type node \<in> set [''component'', ''service'', ''utility'', ''hook''])
       (map snd (report_nodes graph_data))"

definition test_files_of :: "graph_document \<Rightarrow> file_node list" where
  "test_files_of graph_data =
     filter (\<lambda>node. node_type node = ''test'') (map snd (report_nodes graph_data))"

definition test_ratio :: "graph_document \<Rightarrow> error + rat" where
  "test_ratio graph_data =
     (if source_files_of graph_data \<noteq> []
      then py_truediv (length (test_files_of graph_data)) (length (source_files_of graph_data))
      else Inr 0)"

subsection \<open>Example trees and states\<close>

text \<open>Small project trees below the root \<^verbatim>\<open>/proj\<close>, the state built from one of
  them, and the records and document of two others; the properties below are evaluated on
  them.\<close>

definition fs_scenario :: fs where
  \<open>fs_scenario =
     [([''proj''], Dir),
      ([''proj'', ''src''], Dir),
      ([''proj'', ''src'', ''App.tsx''], File ''import Foo from "./Foo"; import React from "react"''),
      ([''proj'', ''src'', ''Foo.tsx''], File []),
      ([''proj'', ''src'', ''main.tsx''], File ''import App from "./App"'')]\<close>


definition fs_styles :: fs where
  \<open>fs_styles =
     [([''proj''], Dir),
      ([''proj'', ''src''], Dir),
      ([''proj'', ''src'', ''App.tsx''], File ''import "./styles.css"''),
      ([''proj'', ''src'', ''styles.ts''], File [])]\<close>

definition fs_kinds :: fs where
  \<open>fs_kinds =
     [([''proj''], Dir),
      ([''proj'', ''src''], Dir),
      ([''proj'', ''src'', ''a.ts''], File ''export * from "./Foo"; import("./Foo"); import("lodash")''),
      ([''proj'', ''src'', ''Foo.tsx''], File [])]\<close>

definition fs_external :: fs where
  \<open>fs_external =
     [([''proj''], Dir),
      ([''proj'', ''src''], Dir),
      ([''proj'', ''src'', ''a.ts''], File ''import("lodash")'')]\<close>

definition fs_lazy :: fs where
  \<open>fs_lazy =
     [([''proj''], Dir),
      ([''proj'', ''src''], Dir),
      ([''proj'', ''src'', ''App.tsx''], File ''const X = React.lazy(() => import("./X"));''),
      ([''proj'', ''src'', ''X.tsx''], File [])]\<close>

definition fs_dangling :: fs where
  \<open>fs_dangling =
     [([''proj''], Dir),
      ([''proj'', ''src''], Dir),
      ([''proj'', ''src'', ''a.ts''], File ''import x from "../scripts/foo"''),
      ([''proj'', ''scripts''], Dir),
      ([''proj'', ''scripts'', ''foo.ts''], File [])]\<close>

definition fs_escape :: fs where
  \<open>fs_escape =
     [([''outside''], Dir),
      ([''outside'', ''x.ts''], File []),
      ([''proj''], Dir),
      ([''proj'', ''src''], Dir),
      ([''proj'', ''src'', ''a.ts''], File ''import x from "../../outside/x"'')]\<close>

definition dangling_state :: analyzer where
  "dangling_state =
     \<lparr>nodes = [(''src/a.ts'', \<lparr>node_id = ''src/a.ts'', node_type = ''module'', imports_count = 1,
                  imported_by = 0, is_orphaned = True\<rparr>)],
      edges = [\<lparr>from_file = ''src/a.ts'', to_file = ''scripts/foo.ts'', import_type = ''static'',
                import_name = Some ''../scripts/foo'', is_external = False\<rparr>]\<rparr>"

definition kinds_records :: "import_info list" where
  "kinds_records =
     [\<lparr>from_file = ''src/a.ts'', to_file = ''src/Foo.tsx'', import_type = ''dynamic'',
        import_name = Some ''./Foo'', is_external = False\<rparr>,
      \<lparr>from_file = ''src/a.ts'', to_file = ''lodash'', import_type = ''static'',
        import_name = Some ''lodash'', is_external = True\<rparr>,
      \<lparr>from_file = ''src/a.ts'', to_file = ''src/Foo.tsx'', import_type = ''re-export'',
        import_name = Some ''./Foo'', is_external = False\<rparr>]"

definition doc_no_sources :: graph_document where
  "doc_no_sources = generate_json_output
     \<lparr>nodes = [(''src/main.tsx'', \<lparr>node_id = ''src/main.tsx'', node_type = ''entry'',
                  imports_count = 0, imported_by = 0, is_orphaned = False\<rparr>),
               (''src/a.test.ts'', \<lparr>node_id = ''src/a.test.ts'', node_type = ''test'',
                  imports_count = 0, imported_by = 0, is_orphaned = False\<rparr>)],
      edges = []\<rparr>"

section \<open>Properties\<close>

subsection \<open>Lists, loops and dictionaries\<close>

lemma find_filter_append:
  "find P (filter P xs @ ys) = (case find P xs of Some x \<Rightarrow> Some x | None \<Rightarrow> find P ys)"
  by (induction xs) auto

lemma find_map_first:
  "xs = pre @ x # post \<Longrightarrow> \<forall>y \<in> set pre. \<not> P (f y) \<Longrightarrow> P (f x) \<Longrightarrow>
   find P (map f xs) = Some (f x)"
  by (induction pre arbitrary: xs) auto

lemma find_Some_member: "find P xs = Some x \<Longrightarrow> P x \<and> x \<in> set xs"
  by (induction xs) (auto split: if_splits)

lemma list_all2_member:
  "list_all2 R xs ys \<Longrightarrow> y \<in> set ys \<Longrightarrow> \<exists>x \<in> set xs. R x y"
  by (induction rule: list_all2_induct) auto

lemma map_err_list_all2:
  "map_err f xs = Inr ys \<Longrightarrow> list_all2 (\<lambda>x y. f x = Inr y) xs ys"
  by (induction xs arbitrary: ys) (auto split: sum.splits)

lemma map_err_length: "map_err f xs = Inr ys \<Longrightarrow> length ys = length xs"
  by (drule map_err_list_all2) (simp add: list_all2_lengthD)

lemma map_err_member:
  "map_err f xs = Inr ys \<Longrightarrow> y \<in> set ys \<Longrightarrow> \<exists>x \<in> set xs. f x = Inr y"
  by (induction xs arbitrary: ys) (auto split: sum.splits)

lemma dict_set_keys: "fst ` set (dict_set k v d) = insert k (fst ` set d)"
  by (induction k v d rule: dict_set.induct) (auto simp: image_iff split: if_splits)

lemma sublist_trans': "sublist xs ys \<Longrightarrow> sublist ys zs \<Longrightarrow> sublist xs zs"
  by (rule sublist_order.order.trans)

subsection \<open>Paths and suffixes\<close>

lemma resolve_acc:
  "''..'' \<notin> set p \<Longrightarrow>
   foldl (\<lambda>acc seg. if seg = ''..'' then butlast acc else acc @ [seg]) acc p = acc @ p"
  by (induction p arbitrary: acc) auto

lemma resolve_normalized: "''..'' \<notin> set p \<Longrightarrow> resolve p = p"
  by (simp add: resolve_def resolve_acc)

lemma py_suffix_dotted:
  assumes "stem \<noteq> []" "old \<noteq> []" "CHR ''.'' \<notin> set old"
  shows "py_suffix (stem @ CHR ''.'' # old) = CHR ''.'' # old"
proof -
  have "takeWhile (\<lambda>c. c \<noteq> CHR ''.'') (rev old @ CHR ''.'' # rev stem) = rev old"
    using assms(3) by (subst takeWhile_append2) auto
  then show ?thesis
    using assms(1,2) by (simp add: py_suffix_def Let_def)
qed

lemma with_suffix_name_replaces:
  assumes "stem \<noteq> []" "old \<noteq> []" "CHR ''.'' \<notin> set old"
  shows "with_suffix_name (stem @ CHR ''.'' # old) e = stem @ e"
  by (simp add: with_suffix_name_def py_suffix_dotted [OF assms])

lemma with_suffix_name_appends:
  "py_suffix name = [] \<Longrightarrow> with_suffix_name name e = name @ e"
  by (simp add: with_suffix_name_def)

lemma with_suffix_name_suffix: "suffix e (with_suffix_name name e)"
  by (simp add: with_suffix_name_def suffix_def)

lemma last_suffix_join_slash: "rel \<noteq> [] \<Longrightarrow> suffix (last rel) (join_slash rel)"
proof (induction rel rule: join_slash.induct)
  case (3 x y ys)
  then have "suffix (last (y # ys)) (join_slash (y # ys))" by simp
  then show ?case by (auto simp: suffix_def)
qed simp_all

lemma valid_extensions:
  "e \<in> set extensions \<Longrightarrow> CHR ''/'' \<notin> set e \<and> prefix ''.'' e \<and> e \<noteq> ''.'' \<and> e \<noteq> []"
  by (auto simp: extensions_def)

lemma with_suffix_extension:
  "e \<in> set extensions \<Longrightarrow> rp \<noteq> [] \<Longrightarrow>
   with_suffix rp e = Inr (butlast rp @ [with_suffix_name (last rp) e])"
  using valid_extensions [of e] by (simp add: with_suffix_def)

lemma fs_exists_iff: "fs_exists fs p \<longleftrightarrow> p \<in> set (fs_paths fs)"
  by (simp add: fs_exists_def fs_paths_def map_of_eq_None_iff)

subsection \<open>The resolver\<close>

lemma direct_matches_candidates:
  "set exts \<subseteq> set extensions \<Longrightarrow> rp \<noteq> [] \<Longrightarrow>
   direct_matches fs rp exts =
     Inr (filter (fs_exists fs) (map (\<lambda>e. butlast rp @ [with_suffix_name (last rp) e]) exts))"
  by (induction exts) (simp_all add: with_suffix_extension)

lemma direct_matches_empty_name:
  "direct_matches fs [] extensions = Inl ValueError"
  by (simp add: extensions_def with_suffix_def)

lemma resolve_import_path_local:
  assumes "prefix ''.'' import_path \<or> prefix ''@/'' import_path"
    and "resolved_path project_root import_path declaring = dir @ [name]"
  shows "resolve_import_path fs project_root import_path declaring =
     Inr (case find (fs_exists fs) (map (\<lambda>e. dir @ [with_suffix_name name e]) extensions) of
            Some p \<Rightarrow> Some p
          | None \<Rightarrow> find (fs_exists fs) (index_matches fs (dir @ [name]) extensions))"
  using assms
  by (auto simp: resolve_import_path_def Let_def direct_matches_candidates find_filter_append)

lemma first_existing_extension:
  assumes "prefix ''.'' import_path \<or> prefix ''@/'' import_path"
    and "resolved_path project_root import_path declaring = dir @ [name]"
    and "extensions = earlier @ ext # later"
    and "\<forall>e \<in> set earlier. \<not> fs_exists fs (dir @ [with_suffix_name name e])"
    and "fs_exists fs (dir @ [with_suffix_name name ext])"
  shows "resolve_import_path fs project_root import_path declaring =
     Inr (Some (dir @ [with_suffix_name name ext]))"
proof -
  have "find (fs_exists fs) (map (\<lambda>e. dir @ [with_suffix_name name e]) extensions)
        = Some (dir @ [with_suffix_name name ext])"
    using assms(3-5) by (rule find_map_first)
  then show ?thesis
    by (simp add: resolve_import_path_local [OF assms(1,2)])
qed

lemma index_matches_member:
  assumes "p \<in> set (index_matches fs rp exts)"
  shows "fs_exists fs p \<and> p \<noteq> [] \<and> (\<exists>e \<in> set exts. suffix e (last p))"
proof -
  from assms obtain e where e: "e \<in> set exts" "p = rp @ [''index'' @ e]" "fs_exists fs p"
    by (auto simp: index_matches_def split: if_splits)
  have "suffix e (''index'' @ e)"
    by (rule suffixI) (rule refl)
  with e show ?thesis by auto
qed

lemma resolve_import_path_found:
  assumes "resolve_import_path fs project_root import_path declaring = Inr (Some p)"
  shows "fs_exists fs p \<and> p \<noteq> [] \<and> (\<exists>e \<in> set extensions. suffix e (last p))"
proof -
  define rp where "rp = resolved_path project_root import_path declaring"
  from assms obtain direct where
    d: "direct_matches fs rp extensions = Inr direct" and
    f: "find (fs_exists fs) (direct @ index_matches fs rp extensions) = Some p"
    by (auto simp: resolve_import_path_def Let_def rp_def split: if_splits sum.splits)
  have ne: "rp \<noteq> []"
    using d direct_matches_empty_name [of fs] by auto
  then have direct: "direct = filter (fs_exists fs)
      (map (\<lambda>e. butlast rp @ [with_suffix_name (last rp) e]) extensions)"
    using d by (simp add: direct_matches_candidates)
  from f have "fs_exists fs p" and "p \<in> set (direct @ index_matches fs rp extensions)"
    by (auto dest: find_Some_member)
  then consider "p \<in> set direct" | "p \<in> set (index_matches fs rp extensions)"
    by auto
  then show ?thesis
  proof cases
    case 1
    then obtain e where "e \<in> set extensions" "p = butlast rp @ [with_suffix_name (last rp) e]"
      unfolding direct by auto
    then have "last p = with_suffix_name (last rp) e" "p \<noteq> []"
      by simp_all
    with \<open>fs_exists fs p\<close> \<open>e \<in> set extensions\<close> with_suffix_name_suffix [of e "last rp"]
    show ?thesis by metis
  next
    case 2
    then show ?thesis by (rule index_matches_member)
  qed
qed



lemma parse_segments_dot_slash:
  "parse_segments (CHR ''.'' # CHR ''/'' # p) = parse_segments p"
  by (simp add: parse_segments_def)

text \<open>
  \<^bold>\<open>Claim C7.\<close> For an import path that starts with the alias marker \<^verbatim>\<open>@/\<close>
  the marker is stripped and the rest is resolved against the source root: the probed path
  is the rest joined to the source root, and the result is the first existing candidate at
  that path. So the result is the same from any two declaring files, whatever their depth,
  and, when the rest does not start with a slash, it is what the relative path
  \<^verbatim>\<open>./\<close> followed by the rest resolves to from a file directly in the source root.
\<close>

theorem alias_resolves_against_src_root:
  "resolved_path project_root (''@/'' @ p) f1 = resolve (joinpath (src_root project_root) p)
   \<and> resolve_import_path fs project_root (''@/'' @ p) f1 =
       (case direct_matches fs (resolve (joinpath (src_root project_root) p)) extensions of
          Inl e \<Rightarrow> Inl e
        | Inr direct \<Rightarrow>
            Inr (find (fs_exists fs)
                  (direct @ index_matches fs (resolve (joinpath (src_root project_root) p))
                              extensions)))
   \<and> resolve_import_path fs project_root (''@/'' @ p) f1 =
       resolve_import_path fs project_root (''@/'' @ p) f2
   \<and> (\<not> prefix ''/'' p \<longrightarrow>
        resolve_import_path fs project_root (''@/'' @ p) f1 =
        resolve_import_path fs project_root (''./'' @ p) (src_root project_root @ [g]))"
proof (intro conjI impI)
  show rp: "resolved_path project_root (''@/'' @ p) f1 = resolve (joinpath (src_root project_root) p)"
    by (simp add: resolved_path_def)
  show "resolve_import_path fs project_root (''@/'' @ p) f1 =
       (case direct_matches fs (resolve (joinpath (src_root project_root) p)) extensions of
          Inl e \<Rightarrow> Inl e
        | Inr direct \<Rightarrow>
            Inr (find (fs_exists fs)
                  (direct @ index_matches fs (resolve (joinpath (src_root project_root) p))
                              extensions)))"
    by (simp add: resolve_import_path_def resolved_path_def Let_def)
  show "resolve_import_path fs project_root (''@/'' @ p) f1 =
       resolve_import_path fs project_root (''@/'' @ p) f2"
    by (simp add: resolve_import_path_def resolved_path_def)
  assume rel: "\<not> prefix ''/'' p"
  have "joinpath (parent (src_root project_root @ [g])) (''./'' @ p)
        = joinpath (src_root project_root) p"
    using rel by (simp add: joinpath_def parent_def parse_segments_dot_slash)
  then have "resolved_path project_root (''./'' @ p) (src_root project_root @ [g])
        = resolved_path project_root (''@/'' @ p) f1"
    by (simp add: resolved_path_def)
  then show "resolve_import_path fs project_root (''@/'' @ p) f1 =
        resolve_import_path fs project_root (''./'' @ p) (src_root project_root @ [g])"
    by (simp add: resolve_import_path_def)
qed

text \<open>Claim C7 for \<^verbatim>\<open>@/styles\<close> from a file three levels below the source root
  and from one directly in it: both give \<^verbatim>\<open>src/styles.ts\<close>.\<close>

theorem alias_resolves_against_src_root_witness:
  "resolved_path [''proj''] ''@/styles'' [''proj'', ''src'', ''deep'', ''er'', ''B.ts'']
     = [''proj'', ''src'', ''styles'']
   \<and> resolve_import_path fs_styles [''proj''] ''@/styles'' [''proj'', ''src'', ''deep'', ''er'', ''B.ts'']
       = Inr (Some [''proj'', ''src'', ''styles.ts''])
   \<and> resolve_import_path fs_styles [''proj''] ''@/styles'' [''proj'', ''src'', ''App.tsx'']
       = Inr (Some [''proj'', ''src'', ''styles.ts''])
   \<and> resolve_import_path fs_styles [''proj''] ''./styles'' [''proj'', ''src'', ''App.tsx'']
       = Inr (Some [''proj'', ''src'', ''styles.ts''])"
proof -
  have r: "resolve (joinpath (src_root [''proj'']) ''styles'') = [''proj'', ''src'', ''styles'']"
    by code_simp
  have a: "resolve_import_path fs_styles [''proj''] ''./styles'' [''proj'', ''src'', ''App.tsx'']
       = Inr (Some [''proj'', ''src'', ''styles.ts''])"
    by code_simp
  have n: "\<not> prefix ''/'' ''styles''" by simp
  have s: "src_root [''proj''] @ [''App.tsx''] = [''proj'', ''src'', ''App.tsx'']"
    by (simp add: src_root_def)
  have e1: "''@/'' @ ''styles'' = ''@/styles''" by simp
  have e2: "''./'' @ ''styles'' = ''./styles''" by simp
  note t = alias_resolves_against_src_root [of "[''proj'']" "''styles''"
      "[''proj'', ''src'', ''deep'', ''er'', ''B.ts'']" fs_styles
      "[''proj'', ''src'', ''App.tsx'']" "''App.tsx''", unfolded e1 e2 s r]
  have c1: "resolved_path [''proj''] ''@/styles'' [''proj'', ''src'', ''deep'', ''er'', ''B.ts'']
     = [''proj'', ''src'', ''styles'']"
    by (rule t [THEN conjunct1])
  have c3: "resolve_import_path fs_styles [''proj''] ''@/styles'' [''proj'', ''src'', ''deep'', ''er'', ''B.ts'']
     = resolve_import_path fs_styles [''proj''] ''@/styles'' [''proj'', ''src'', ''App.tsx'']"
    by (rule t [THEN conjunct2, THEN conjunct2, THEN conjunct1])
  have c4: "resolve_import_path fs_styles [''proj''] ''@/styles'' [''proj'', ''src'', ''deep'', ''er'', ''B.ts'']
     = resolve_import_path fs_styles [''proj''] ''./styles'' [''proj'', ''src'', ''App.tsx'']"
    by (rule t [THEN conjunct2, THEN conjunct2, THEN conjunct2, THEN mp, OF n])
  have d: "resolve_import_path fs_styles [''proj''] ''@/styles'' [''proj'', ''src'', ''deep'', ''er'', ''B.ts'']
     = Inr (Some [''proj'', ''src'', ''styles.ts''])"
    using c4 a by (rule trans)
  have ap: "resolve_import_path fs_styles [''proj''] ''@/styles'' [''proj'', ''src'', ''App.tsx'']
     = Inr (Some [''proj'', ''src'', ''styles.ts''])"
    using c3 [symmetric] d by (rule trans)
  show ?thesis
    using c1 d ap a by (intro conjI)
qed

lemma resolved_path_in_src:
  assumes "''..'' \<notin> set project_root"
  shows "resolved_path project_root ''./styles.css'' (project_root @ [''src'', f])
         = (project_root @ [''src'']) @ [''styles.css'']"
proof -
  have "parse_segments ''./styles.css'' = [''styles.css'']" by code_simp
  then have "joinpath (parent (project_root @ [''src'', f])) ''./styles.css''
             = project_root @ [''src'', ''styles.css'']"
    by (simp add: joinpath_def parent_def butlast_append)
  moreover have "''..'' \<notin> set (project_root @ [''src'', ''styles.css''])"
    using assms by simp
  ultimately show ?thesis
    by (simp add: resolved_path_def resolve_normalized)
qed

text \<open>
  \<^bold>\<open>Claim C9.\<close> When the final segment of the probed path has a suffix, that is a dot
  with a non-empty stem before it and a non-empty, dot-free rest behind it, the direct
  probe tries the stem followed by each recognised extension, in order, so the old suffix
  is replaced and not kept. Hence \<^verbatim>\<open>./styles.css\<close>, imported from a file directly
  in the source root, resolves to \<^verbatim>\<open>src/styles.ts\<close> whenever that file exists.
\<close>

theorem suffix_replaced:
  "((prefix ''.'' import_path \<or> prefix ''@/'' import_path)
     \<and> resolved_path project_root import_path declaring = dir @ [stem @ CHR ''.'' # old]
     \<and> stem \<noteq> [] \<and> old \<noteq> [] \<and> CHR ''.'' \<notin> set old
     \<and> extensions = earlier @ ext # later
     \<and> (\<forall>e \<in> set earlier. \<not> fs_exists fs (dir @ [stem @ e]))
     \<and> fs_exists fs (dir @ [stem @ ext])
    \<longrightarrow> resolve_import_path fs project_root import_path declaring = Inr (Some (dir @ [stem @ ext])))
   \<and> (''..'' \<notin> set project_root \<and> fs_exists fs (project_root @ [''src'', ''styles.ts''])
    \<longrightarrow> resolve_import_path fs project_root ''./styles.css'' (project_root @ [''src'', f])
        = Inr (Some (project_root @ [''src'', ''styles.ts''])))"
proof (intro conjI impI)
  assume a: "(prefix ''.'' import_path \<or> prefix ''@/'' import_path)
     \<and> resolved_path project_root import_path declaring = dir @ [stem @ CHR ''.'' # old]
     \<and> stem \<noteq> [] \<and> old \<noteq> [] \<and> CHR ''.'' \<notin> set old
     \<and> extensions = earlier @ ext # later
     \<and> (\<forall>e \<in> set earlier. \<not> fs_exists fs (dir @ [stem @ e]))
     \<and> fs_exists fs (dir @ [stem @ ext])"
  then have repl: "\<And>e. with_suffix_name (stem @ CHR ''.'' # old) e = stem @ e"
    by (simp add: with_suffix_name_replaces)
  show "resolve_import_path fs project_root import_path declaring = Inr (Some (dir @ [stem @ ext]))"
    using first_existing_extension [of import_path project_root declaring dir
        "stem @ CHR ''.'' # old" earlier ext later fs] a
    by (simp add: repl)
next
  assume b: "''..'' \<notin> set project_root \<and> fs_exists fs (project_root @ [''src'', ''styles.ts''])"
  have repl: "with_suffix_name ''styles.css'' ''.ts'' = ''styles.ts''"
    using with_suffix_name_replaces [of "''styles''" "''css''" "''.ts''"] by simp
  have ext: "extensions = [] @ ''.ts'' # [''.tsx'', ''.js'', ''.jsx'']"
    by (simp add: extensions_def)
  have "resolve_import_path fs project_root ''./styles.css'' (project_root @ [''src'', f])
        = Inr (Some ((project_root @ [''src'']) @ [with_suffix_name ''styles.css'' ''.ts'']))"
    by (rule first_existing_extension [OF _ resolved_path_in_src ext]) (use b in \<open>simp_all add: repl\<close>)
  then show "resolve_import_path fs project_root ''./styles.css'' (project_root @ [''src'', f])
        = Inr (Some (project_root @ [''src'', ''styles.ts'']))"
    by (simp add: repl)
qed

text \<open>Claim C9 on a tree that holds \<^verbatim>\<open>src/styles.ts\<close>.\<close>

theorem suffix_replaced_witness:
  "fs_exists fs_styles [''proj'', ''src'', ''styles.ts'']
   \<and> resolve_import_path fs_styles [''proj''] ''./styles.css'' [''proj'', ''src'', ''App.tsx'']
       = Inr (Some [''proj'', ''src'', ''styles.ts''])"
proof -
  have h: "''..'' \<notin> set [''proj''] \<and> fs_exists fs_styles ([''proj''] @ [''src'', ''styles.ts''])"
    by code_simp
  show ?thesis
    using suffix_replaced [of _ "[''proj'']" _ _ _ _ _ _ _ fs_styles "''App.tsx''"] h by simp
qed

subsection \<open>The classifier\<close>

lemma match_patterns_table:
  "match_patterns file_type_patterns rel =
     (if sublist ''main.tsx'' rel \<or> sublist ''main.ts'' rel \<or> sublist ''index.html'' rel
      then Some ''entry''
      else if sublist ''.test.'' rel \<or> sublist ''.spec.'' rel \<or> sublist ''__tests__'' rel
      then Some ''test''
      else if sublist ''config.'' rel \<or> sublist ''setup.'' rel \<or> sublist ''.config.'' rel
      then Some ''config''
      else if sublist ''.d.ts'' rel \<or> sublist ''types.ts'' rel then Some ''type''
      else None)"
  by (simp add: file_type_patterns_def)

lemma classify_under_root:
  assumes "prefix project_root file_path"
  shows "classify_file_type project_root file_path =
     Inr (case match_patterns file_type_patterns (path_str (drop (length project_root) file_path)) of
            Some file_type \<Rightarrow> file_type
          | None \<Rightarrow> classify_by_directory file_path)"
  using assms by (simp add: classify_file_type_def relative_to_def split: option.split)

text \<open>
  \<^bold>\<open>Claim C3.\<close> For a file below the project root the classifier returns exactly one
  role. The pattern rules are tried first, in the order entry, test, config, type, on the
  path relative to the project root; the directory rules decide only when no pattern
  occurs. In particular a file with \<^verbatim>\<open>components\<close> among its segments whose name
  holds a test marker is never given the role \<^verbatim>\<open>component\<close>: its role is
  \<^verbatim>\<open>test\<close>, unless an entry pattern also occurs in the relative path, which comes
  first in the same order.
\<close>

theorem classifier_priority:
  assumes "prefix project_root file_path"
    and "rel = path_str (drop (length project_root) file_path)"
  shows "(\<exists>!role. classify_file_type project_root file_path = Inr role)
    \<and> classify_file_type project_root file_path =
        Inr (if sublist ''main.tsx'' rel \<or> sublist ''main.ts'' rel \<or> sublist ''index.html'' rel
             then ''entry''
             else if sublist ''.test.'' rel \<or> sublist ''.spec.'' rel \<or> sublist ''__tests__'' rel
             then ''test''
             else if sublist ''config.'' rel \<or> sublist ''setup.'' rel \<or> sublist ''.config.'' rel
             then ''config''
             else if sublist ''.d.ts'' rel \<or> sublist ''types.ts'' rel then ''type''
             else classify_by_directory file_path)
    \<and> (''components'' \<in> set file_path \<and> project_root \<noteq> file_path
          \<and> (sublist ''.test.'' (last file_path) \<or> sublist ''.spec.'' (last file_path)
               \<or> sublist ''__tests__'' (last file_path))
        \<longrightarrow> classify_file_type project_root file_path =
            Inr (if sublist ''main.tsx'' rel \<or> sublist ''main.ts'' rel \<or> sublist ''index.html'' rel
                 then ''entry'' else ''test''))"
proof (intro conjI impI)
  have c: "classify_file_type project_root file_path =
     Inr (case match_patterns file_type_patterns rel of
            Some file_type \<Rightarrow> file_type
          | None \<Rightarrow> classify_by_directory file_path)"
    using classify_under_root [OF assms(1)] assms(2) by simp
  show "\<exists>!role. classify_file_type project_root file_path = Inr role"
    by (simp add: c)
  show table: "classify_file_type project_root file_path =
        Inr (if sublist ''main.tsx'' rel \<or> sublist ''main.ts'' rel \<or> sublist ''index.html'' rel
             then ''entry''
             else if sublist ''.test.'' rel \<or> sublist ''.spec.'' rel \<or> sublist ''__tests__'' rel
             then ''test''
             else if sublist ''config.'' rel \<or> sublist ''setup.'' rel \<or> sublist ''.config.'' rel
             then ''config''
             else if sublist ''.d.ts'' rel \<or> sublist ''types.ts'' rel then ''type''
             else classify_by_directory file_path)"
    unfolding c match_patterns_table by simp
  assume h: "''components'' \<in> set file_path \<and> project_root \<noteq> file_path
          \<and> (sublist ''.test.'' (last file_path) \<or> sublist ''.spec.'' (last file_path)
               \<or> sublist ''__tests__'' (last file_path))"
  obtain below where below: "file_path = project_root @ below" "below \<noteq> []"
    using assms(1) h by (auto simp: prefix_def)
  then have "rel = join_slash below" "last file_path = last below"
    using assms(2) by (simp_all add: path_str_def)
  then have name: "sublist (last file_path) rel"
    using last_suffix_join_slash [OF below(2)] by simp
  have "sublist ''.test.'' rel \<or> sublist ''.spec.'' rel \<or> sublist ''__tests__'' rel"
    using h name by (blast intro: sublist_trans')
  then show "classify_file_type project_root file_path =
            Inr (if sublist ''main.tsx'' rel \<or> sublist ''main.ts'' rel \<or> sublist ''index.html'' rel
                 then ''entry'' else ''test'')"
    unfolding table by simp
qed

text \<open>Claim C3 at \<^verbatim>\<open>src/components/Button.test.tsx\<close>, which the directory rule alone
  would call a component.\<close>

theorem classifier_priority_witness:
  "classify_file_type [''proj''] [''proj'', ''src'', ''components'', ''Button.test.tsx''] = Inr ''test''
   \<and> classify_by_directory [''proj'', ''src'', ''components'', ''Button.test.tsx''] = ''component''"
proof -
  have p: "prefix [''proj''] [''proj'', ''src'', ''components'', ''Button.test.tsx'']" by simp
  have r: "''src/components/Button.test.tsx''
           = path_str (drop (length [''proj'']) [''proj'', ''src'', ''components'', ''Button.test.tsx''])"
    by (simp add: path_str_def)
  have h: "''components'' \<in> set [''proj'', ''src'', ''components'', ''Button.test.tsx'']
          \<and> [''proj''] \<noteq> [''proj'', ''src'', ''components'', ''Button.test.tsx'']
          \<and> (sublist ''.test.'' (last [''proj'', ''src'', ''components'', ''Button.test.tsx''])
              \<or> sublist ''.spec.'' (last [''proj'', ''src'', ''components'', ''Button.test.tsx''])
              \<or> sublist ''__tests__'' (last [''proj'', ''src'', ''components'', ''Button.test.tsx'']))"
    by code_simp
  have e: "\<not> (sublist ''main.tsx'' ''src/components/Button.test.tsx''
             \<or> sublist ''main.ts'' ''src/components/Button.test.tsx''
             \<or> sublist ''index.html'' ''src/components/Button.test.tsx'')"
    by code_simp
  have d: "classify_by_directory [''proj'', ''src'', ''components'', ''Button.test.tsx''] = ''component''"
    by (simp add: classify_by_directory_def)
  have c: "classify_file_type [''proj''] [''proj'', ''src'', ''components'', ''Button.test.tsx'']
      = Inr (if sublist ''main.tsx'' ''src/components/Button.test.tsx''
                \<or> sublist ''main.ts'' ''src/components/Button.test.tsx''
                \<or> sublist ''index.html'' ''src/components/Button.test.tsx''
             then ''entry'' else ''test'')"
    using classifier_priority [OF p r] h by blast
  show ?thesis
    unfolding c using e d by (simp only: if_False simp_thms)
qed

subsection \<open>The extractor\<close>

lemma import_record_kind:
  assumes "import_record fs project_root file_path relative_from pattern_key import_path = Inr r"
  shows "import_name r = Some import_path \<and> from_file r = relative_from
    \<and> import_type r = (if is_external r then ''static'' else imp_type pattern_key)"
proof (cases "resolve_import_path fs project_root import_path file_path")
  case (Inl e)
  with assms show ?thesis by (simp add: import_record_def)
next
  case (Inr found)
  show ?thesis
  proof (cases found)
    case None
    with Inr assms show ?thesis by (auto simp: import_record_def)
  next
    case (Some rp)
    with Inr assms show ?thesis
      by (cases "relative_to rp project_root") (auto simp: import_record_def)
  qed
qed

lemma import_record_internal:
  assumes "import_record fs project_root file_path relative_from pattern_key import_path = Inr r"
    and "\<not> is_external r"
  obtains target where
    "resolve_import_path fs project_root import_path file_path = Inr (Some target)"
    "prefix project_root target"
    "to_file r = path_str (drop (length project_root) target)"
proof (cases "resolve_import_path fs project_root import_path file_path")
  case (Inl e)
  with assms show ?thesis by (simp add: import_record_def)
next
  case (Inr found)
  show ?thesis
  proof (cases found)
    case None
    with Inr assms show ?thesis by (auto simp: import_record_def)
  next
    case (Some rp)
    with Inr assms that [of rp] show ?thesis
      by (cases "prefix project_root rp") (auto simp: import_record_def relative_to_def)
  qed
qed

lemma extract_imports_records:
  assumes "extract_imports_from_file fs project_root file_path = Inr records"
    and "read_text fs file_path = Some content"
  shows "list_all2 (\<lambda>(pattern_key, import_path) r.
            import_record fs project_root file_path
              (path_str (drop (length project_root) file_path)) pattern_key import_path = Inr r)
          (pattern_matches content) records"
proof -
  from assms have "map_err (\<lambda>(pattern_key, import_path).
      import_record fs project_root file_path
        (path_str (drop (length project_root) file_path)) pattern_key import_path)
      (pattern_matches content) = Inr records"
    by (auto simp: extract_imports_from_file_def relative_to_def split: sum.splits if_splits)
  from map_err_list_all2 [OF this] show ?thesis
    by (rule list_all2_mono) auto
qed

text \<open>
  \<^bold>\<open>Claim C4\<close> (as amended). The records of a file correspond one to one, in order, to
  the pattern matches. A record that resolves internally has the kind of its pattern:
  \<^verbatim>\<open>dynamic\<close> for the dynamic-import and lazy-wrapper patterns, \<^verbatim>\<open>re-export\<close>
  for the re-export-from pattern, \<^verbatim>\<open>static\<close> otherwise. A record classified
  external has kind \<^verbatim>\<open>static\<close> whatever pattern matched it.
\<close>

theorem import_kind_by_pattern:
  assumes "extract_imports_from_file fs project_root file_path = Inr records"
    and "read_text fs file_path = Some content"
  shows "list_all2 (\<lambda>(pattern_key, import_path) r.
            import_name r = Some import_path
            \<and> import_type r =
                (if is_external r then ''static''
                 else if pattern_key = ''dynamic_import'' \<or> pattern_key = ''lazy_import''
                 then ''dynamic''
                 else if pattern_key = ''export_from'' then ''re-export''
                 else ''static''))
          (pattern_matches content) records"
proof -
  have "list_all2 (\<lambda>(pattern_key, import_path) r.
            import_name r = Some import_path
            \<and> import_type r = (if is_external r then ''static'' else imp_type pattern_key))
          (pattern_matches content) records"
    using extract_imports_records [OF assms]
    by (rule list_all2_mono) (auto dest: import_record_kind)
  then show ?thesis
    unfolding imp_type_def .
qed

text \<open>
  Claim C4 as stated fails for external records: the text \<^verbatim>\<open>import("lodash")\<close> is
  matched by the dynamic-import pattern only, and its record has kind \<^verbatim>\<open>static\<close>.
\<close>

theorem external_dynamic_import_static:
  \<open>read_text fs_external [''proj'', ''src'', ''a.ts''] = Some ''import("lodash")''
   \<and> pattern_matches ''import("lodash")'' = [(''dynamic_import'', ''lodash'')]
   \<and> extract_imports_from_file fs_external [''proj''] [''proj'', ''src'', ''a.ts'']
       = Inr [\<lparr>from_file = ''src/a.ts'', to_file = ''lodash'', import_type = ''static'',
                import_name = Some ''lodash'', is_external = True\<rparr>]\<close>
  by code_simp

text \<open>The amended statement of C4 on a file with an internal dynamic import, an
  external dynamic import and an internal re-export.\<close>

theorem import_kind_by_pattern_witness:
  \<open>extract_imports_from_file fs_kinds [''proj''] [''proj'', ''src'', ''a.ts''] = Inr kinds_records
   \<and> pattern_matches ''export * from "./Foo"; import("./Foo"); import("lodash")''
       = [(''dynamic_import'', ''./Foo''), (''dynamic_import'', ''lodash''), (''export_from'', ''./Foo'')]
   \<and> list_all2 (\<lambda>(pattern_key, import_path) r.
            import_name r = Some import_path
            \<and> import_type r =
                (if is_external r then ''static''
                 else if pattern_key = ''dynamic_import'' \<or> pattern_key = ''lazy_import''
                 then ''dynamic''
                 else if pattern_key = ''export_from'' then ''re-export''
                 else ''static''))
          (pattern_matches ''export * from "./Foo"; import("./Foo"); import("lodash")'')
          kinds_records\<close>
proof -
  have x: \<open>extract_imports_from_file fs_kinds [''proj''] [''proj'', ''src'', ''a.ts''] = Inr kinds_records\<close>
    by code_simp
  have r: \<open>read_text fs_kinds [''proj'', ''src'', ''a.ts'']
      = Some ''export * from "./Foo"; import("./Foo"); import("lodash")''\<close>
    by code_simp
  have p: \<open>pattern_matches ''export * from "./Foo"; import("./Foo"); import("lodash")''
       = [(''dynamic_import'', ''./Foo''), (''dynamic_import'', ''lodash''), (''export_from'', ''./Foo'')]\<close>
    by code_simp
  from import_kind_by_pattern [OF x r] x p show ?thesis
    by (intro conjI)
qed

lemma pattern_matches_paths:
  "map snd (pattern_matches content) =
     findall static_import content @ findall dynamic_import content
     @ findall lazy_import content @ findall require content @ findall export_from content"
  by (simp add: pattern_matches_def import_patterns_def comp_def)

text \<open>
  \<^bold>\<open>Claim C5\<close> (as amended). Each of the five patterns is matched on its own against the
  whole text, and every match of every pattern yields one record: the records are, in
  order, the matches of the static-import, dynamic-import, lazy-wrapper, require and
  re-export-from patterns, with nothing removed across patterns.
\<close>

theorem records_per_pattern_match:
  assumes "extract_imports_from_file fs project_root file_path = Inr records"
    and "read_text fs file_path = Some content"
  shows "map import_name records =
           map Some (findall static_import content @ findall dynamic_import content
             @ findall lazy_import content @ findall require content
             @ findall export_from content)
    \<and> length records =
        length (findall static_import content) + length (findall dynamic_import content)
        + length (findall lazy_import content) + length (findall require content)
        + length (findall export_from content)"
proof -
  have "list_all2 (\<lambda>km r. import_name r = Some (snd km)) (pattern_matches content) records"
    using extract_imports_records [OF assms]
    by (rule list_all2_mono) (auto dest: import_record_kind)
  then have "map import_name records = map (\<lambda>km. Some (snd km)) (pattern_matches content)"
    by (induction rule: list_all2_induct) auto
  also have "\<dots> = map Some (map snd (pattern_matches content))"
    by simp
  finally have m: "map import_name records =
       map Some (findall static_import content @ findall dynamic_import content
         @ findall lazy_import content @ findall require content
         @ findall export_from content)"
    unfolding pattern_matches_paths .
  have "length records = length (map import_name records)"
    by simp
  also have "\<dots> = length (findall static_import content) + length (findall dynamic_import content)
        + length (findall lazy_import content) + length (findall require content)
        + length (findall export_from content)"
    unfolding m by simp
  finally show ?thesis
    using m by simp
qed

text \<open>
  Claim C5 as stated fails: the single statement
  \<^verbatim>\<open>const X = React.lazy(() => import("./X"));\<close> yields two records, one from the
  dynamic-import pattern and one from the lazy-wrapper pattern.
\<close>

theorem lazy_wrapper_two_records:
  \<open>read_text fs_lazy [''proj'', ''src'', ''App.tsx'']
     = Some ''const X = React.lazy(() => import("./X"));''
   \<and> extract_imports_from_file fs_lazy [''proj''] [''proj'', ''src'', ''App.tsx'']
       = Inr [\<lparr>from_file = ''src/App.tsx'', to_file = ''src/X.tsx'', import_type = ''dynamic'',
                import_name = Some ''./X'', is_external = False\<rparr>,
              \<lparr>from_file = ''src/App.tsx'', to_file = ''src/X.tsx'', import_type = ''dynamic'',
                import_name = Some ''./X'', is_external = False\<rparr>]\<close>
  by code_simp

text \<open>The amended statement of C5 on the lazy-wrapper statement.\<close>

theorem records_per_pattern_match_witness:
  \<open>\<exists>records. extract_imports_from_file fs_lazy [''proj''] [''proj'', ''src'', ''App.tsx''] = Inr records
     \<and> findall dynamic_import ''const X = React.lazy(() => import("./X"));'' = [''./X'']
     \<and> findall lazy_import ''const X = React.lazy(() => import("./X"));'' = [''./X'']
     \<and> map import_name records = [Some ''./X'', Some ''./X'']
     \<and> length records = 2\<close>
proof -
  have \<open>\<not> isl (extract_imports_from_file fs_lazy [''proj''] [''proj'', ''src'', ''App.tsx''])\<close>
    by code_simp
  then obtain records where
    x: \<open>extract_imports_from_file fs_lazy [''proj''] [''proj'', ''src'', ''App.tsx''] = Inr records\<close>
    by (cases \<open>extract_imports_from_file fs_lazy [''proj''] [''proj'', ''src'', ''App.tsx'']\<close>) auto
  have r: \<open>read_text fs_lazy [''proj'', ''src'', ''App.tsx'']
      = Some ''const X = React.lazy(() => import("./X"));''\<close>
    by code_simp
  have f1: \<open>findall static_import ''const X = React.lazy(() => import("./X"));'' = []\<close>
    by code_simp
  have f2: \<open>findall dynamic_import ''const X = React.lazy(() => import("./X"));'' = [''./X'']\<close>
    by code_simp
  have f3: \<open>findall lazy_import ''const X = React.lazy(() => import("./X"));'' = [''./X'']\<close>
    by code_simp
  have f4: \<open>findall require ''const X = React.lazy(() => import("./X"));'' = []\<close>
    by code_simp
  have f5: \<open>findall export_from ''const X = React.lazy(() => import("./X"));'' = []\<close>
    by code_simp
  have m: \<open>map import_name records = [Some ''./X'', Some ''./X''] \<and> length records = 2\<close>
    using records_per_pattern_match [OF x r] unfolding f1 f2 f3 f4 f5 by simp
  show ?thesis
    by (rule exI [of _ records]) (simp only: x f2 f3 m simp_thms)
qed

subsection \<open>The graph builder\<close>

lemma update_node_orphan:
  "update_node (ic, ibc) (key, node) = (key', node') \<Longrightarrow>
   key' = key \<and> imported_by node' = ibc key \<and> imports_count node' = ic key
   \<and> node_type node' = node_type node \<and> node_id node' = node_id node
   \<and> (is_orphaned node' \<longleftrightarrow> imported_by node' = 0 \<and> node_type node' \<notin> {''entry'', ''test''})"
  by (auto simp: update_node_def)

lemma update_node_key: "fst (update_node counts entry) = fst entry"
  by (cases counts; cases entry) (simp add: update_node_def)

lemma fold_tally_incoming:
  "snd (fold tally es (ic, ibc)) k
   = ibc k + length (filter (\<lambda>e. \<not> is_external e \<and> to_file e = k) es)"
  by (induction es arbitrary: ic ibc) (auto simp: tally_def)

lemma fold_tally_outgoing:
  "fst (fold tally es (ic, ibc)) k
   = ic k + length (filter (\<lambda>e. \<not> is_external e \<and> from_file e = k) es)"
  by (induction es arbitrary: ic ibc) (auto simp: tally_def)

lemma build_dependency_graph_result:
  assumes "build_dependency_graph fs project_root = Inr a"
  obtains created per_file where
    "create_nodes project_root (get_all_source_files fs project_root) [] = Inr created"
    "map_err (extract_imports_from_file fs project_root) (get_all_source_files fs project_root)
       = Inr per_file"
    "edges a = concat per_file"
    "nodes a = map (update_node (fold tally (concat per_file) (\<lambda>k. 0, \<lambda>k. 0))) created"
  using assms
  by (auto simp: build_dependency_graph_def Let_def split: sum.splits)

text \<open>
  \<^bold>\<open>Claim C2.\<close> After \<^verbatim>\<open>build_dependency_graph\<close>, every node has its orphan flag
  set exactly when its incoming count is zero and its role is neither \<^verbatim>\<open>entry\<close> nor
  \<^verbatim>\<open>test\<close>; the incoming count is the number of internal edges whose target is the
  node's key.
\<close>

theorem orphan_flag_iff:
  assumes "build_dependency_graph fs project_root = Inr a"
    and "(key, node) \<in> set (nodes a)"
  shows "(is_orphaned node \<longleftrightarrow> imported_by node = 0 \<and> node_type node \<notin> {''entry'', ''test''})
    \<and> imported_by node = length (filter (\<lambda>e. \<not> is_external e \<and> to_file e = key) (edges a))"
proof -
  from assms(1) obtain created per_file where
    e: "edges a = concat per_file" and
    n: "nodes a = map (update_node (fold tally (concat per_file) (\<lambda>k. 0, \<lambda>k. 0))) created"
    by (rule build_dependency_graph_result)
  obtain ic ibc where c: "fold tally (concat per_file) (\<lambda>k. 0, \<lambda>k. 0) = (ic, ibc)"
    by (cases "fold tally (concat per_file) (\<lambda>k. 0, \<lambda>k. 0)")
  from assms(2) n c obtain key0 node0 where u: "update_node (ic, ibc) (key0, node0) = (key, node)"
    by auto
  have "ibc key = length (filter (\<lambda>e. \<not> is_external e \<and> to_file e = key) (concat per_file))"
    using fold_tally_incoming [of "concat per_file" "\<lambda>k. 0" "\<lambda>k. 0" key] c by simp
  with update_node_orphan [OF u] e show ?thesis by simp
qed

text \<open>Claim C2 at Scenario A, for the node \<^verbatim>\<open>src/Foo.tsx\<close>.\<close>

theorem orphan_flag_iff_witness:
  "\<exists>a foo. build_dependency_graph fs_scenario [''proj''] = Inr a
     \<and> (''src/Foo.tsx'', foo) \<in> set (nodes a)
     \<and> (is_orphaned foo \<longleftrightarrow> imported_by foo = 0 \<and> node_type foo \<notin> {''entry'', ''test''})
     \<and> imported_by foo = length (filter (\<lambda>e. \<not> is_external e \<and> to_file e = ''src/Foo.tsx'') (edges a))"
proof -
  have "case build_dependency_graph fs_scenario [''proj''] of
          Inl e \<Rightarrow> False
        | Inr a \<Rightarrow> (case map_of (nodes a) ''src/Foo.tsx'' of None \<Rightarrow> False | Some n \<Rightarrow> True)"
    by code_simp
  then obtain a foo where a: "build_dependency_graph fs_scenario [''proj''] = Inr a"
    and f: "(''src/Foo.tsx'', foo) \<in> set (nodes a)"
    by (auto split: sum.splits option.splits dest: map_of_SomeD)
  from orphan_flag_iff [OF a f] a f show ?thesis by blast
qed

lemma get_all_source_files_member:
  "p \<in> set (get_all_source_files fs project_root) \<longleftrightarrow>
     fs_exists fs p \<and> (\<exists>e \<in> set extensions. suffix e (last p))
     \<and> (strict_prefix (src_root project_root) p \<or> (p \<noteq> [] \<and> butlast p = project_root))"
  by (auto simp: get_all_source_files_def rglob_def glob_def fs_exists_iff)

lemma create_nodes_keys:
  "create_nodes project_root files d = Inr d' \<Longrightarrow>
   fst ` set d' = fst ` set d \<union> (\<lambda>f. path_str (drop (length project_root) f)) ` set files"
proof (induction files arbitrary: d)
  case Nil
  then show ?case by simp
next
  case (Cons f files)
  from Cons.prems obtain file_type where
    p: "prefix project_root f" and
    r: "create_nodes project_root files
          (dict_set (path_str (drop (length project_root) f))
             \<lparr>node_id = path_str (drop (length project_root) f), node_type = file_type,
              imports_count = 0, imported_by = 0, is_orphaned = False\<rparr> d) = Inr d'"
    by (auto simp: relative_to_def split: if_splits sum.splits)
  from Cons.IH [OF r] show ?case
    by (auto simp: dict_set_keys)
qed

lemma build_node_keys:
  assumes "build_dependency_graph fs project_root = Inr a"
  shows "fst ` set (nodes a)
    = (\<lambda>f. path_str (drop (length project_root) f)) ` set (get_all_source_files fs project_root)"
proof -
  from assms obtain created per_file where
    c: "create_nodes project_root (get_all_source_files fs project_root) [] = Inr created" and
    n: "nodes a = map (update_node (fold tally (concat per_file) (\<lambda>k. 0, \<lambda>k. 0))) created"
    by (rule build_dependency_graph_result)
  have "fst ` set (nodes a) = fst ` set created"
    unfolding n by (simp add: image_image update_node_key)
  with create_nodes_keys [OF c] show ?thesis by simp
qed

lemma build_edge_origin:
  assumes "build_dependency_graph fs project_root = Inr a" and "edge \<in> set (edges a)"
  obtains file_path pattern_key import_path where
    "file_path \<in> set (get_all_source_files fs project_root)"
    "import_record fs project_root file_path
       (path_str (drop (length project_root) file_path)) pattern_key import_path = Inr edge"
proof -
  from assms(1) obtain created per_file where
    m: "map_err (extract_imports_from_file fs project_root) (get_all_source_files fs project_root)
          = Inr per_file" and
    e: "edges a = concat per_file"
    by (rule build_dependency_graph_result)
  from assms(2) e obtain records where rs: "records \<in> set per_file" "edge \<in> set records"
    by auto
  from map_err_member [OF m rs(1)] obtain file_path where
    f: "file_path \<in> set (get_all_source_files fs project_root)"
       "extract_imports_from_file fs project_root file_path = Inr records"
    by auto
  from f(2) rs(2) obtain content where c: "read_text fs file_path = Some content"
    by (cases "read_text fs file_path") (auto simp: extract_imports_from_file_def)
  from list_all2_member [OF extract_imports_records [OF f(2) c] rs(2)] obtain km where
    "km \<in> set (pattern_matches content)"
    "(case km of (pattern_key, import_path) \<Rightarrow>
        import_record fs project_root file_path
          (path_str (drop (length project_root) file_path)) pattern_key import_path = Inr edge)"
    by blast
  with f(1) that show thesis
    by (cases km) auto
qed

text \<open>
  \<^bold>\<open>Claim C1\<close> (as amended). The resolver decides by existence in the file system, not by
  membership in the node set. For every internal edge of a finished graph, the target
  identity is the path, relative to the project root, of an existing entry below the
  project root whose name ends in a recognised extension. That identity is a key of the
  node set whenever the entry lies below the source root or directly in the project root,
  which are the two places \<^verbatim>\<open>get_all_source_files\<close> scans.
\<close>

theorem internal_edge_target:
  assumes "build_dependency_graph fs project_root = Inr a"
    and "edge \<in> set (edges a)"
    and "\<not> is_external edge"
  shows "\<exists>target. to_file edge = path_str (drop (length project_root) target)
     \<and> prefix project_root target \<and> fs_exists fs target
     \<and> (\<exists>e \<in> set extensions. suffix e (last target))
     \<and> (strict_prefix (src_root project_root) target \<or> butlast target = project_root
          \<longrightarrow> to_file edge \<in> fst ` set (nodes a))"
proof -
  from assms(1,2) obtain file_path pattern_key import_path where
    r: "import_record fs project_root file_path
       (path_str (drop (length project_root) file_path)) pattern_key import_path = Inr edge"
    by (rule build_edge_origin)
  from r assms(3) obtain target where
    t: "resolve_import_path fs project_root import_path file_path = Inr (Some target)"
       "prefix project_root target"
       "to_file edge = path_str (drop (length project_root) target)"
    by (rule import_record_internal)
  from resolve_import_path_found [OF t(1)] have
    x: "fs_exists fs target" "target \<noteq> []" "\<exists>e \<in> set extensions. suffix e (last target)"
    by auto
  have "to_file edge \<in> fst ` set (nodes a)"
    if "strict_prefix (src_root project_root) target \<or> butlast target = project_root"
  proof -
    from that x have "target \<in> set (get_all_source_files fs project_root)"
      by (simp add: get_all_source_files_member)
    then show ?thesis
      unfolding build_node_keys [OF assms(1)] t(3) by (rule imageI)
  qed
  with t x show ?thesis by blast
qed

text \<open>A finished graph is a premise of the statement above: an import that resolves to
  an existing file outside the project root makes \<^verbatim>\<open>relative_to\<close> raise, and the
  build ends with that error.\<close>

lemma escaping_import_raises:
  "resolve_import_path fs_escape [''proj''] ''../../outside/x'' [''proj'', ''src'', ''a.ts'']
     = Inr (Some [''outside'', ''x.ts''])
   \<and> build_dependency_graph fs_escape [''proj''] = Inl ValueError"
  by code_simp

lemma build_dangling: "build_dependency_graph fs_dangling [''proj''] = Inr dangling_state"
  by code_simp

text \<open>
  Claim C1 as stated fails: with \<^verbatim>\<open>src/a.ts\<close> importing
  \<^verbatim>\<open>../scripts/foo\<close> and \<^verbatim>\<open>scripts/foo.ts\<close> present beside
  \<^verbatim>\<open>src\<close>, the edge is internal and its target \<^verbatim>\<open>scripts/foo.ts\<close> is not a
  node.
\<close>

theorem dangling_internal_edge:
  "\<exists>a edge. build_dependency_graph fs_dangling [''proj''] = Inr a
     \<and> edge \<in> set (edges a) \<and> \<not> is_external edge
     \<and> to_file edge = ''scripts/foo.ts''
     \<and> fst ` set (nodes a) = {''src/a.ts''}
     \<and> to_file edge \<notin> fst ` set (nodes a)"
  unfolding build_dangling
  by (intro exI [of _ dangling_state] exI [of _ "hd (edges dangling_state)"])
     (simp add: dangling_state_def)

text \<open>The amended statement of C1 at Scenario A: \<^verbatim>\<open>src/App.tsx\<close> imports
  \<^verbatim>\<open>./Foo\<close> and \<^verbatim>\<open>src/Foo.tsx\<close> exists.\<close>

theorem internal_edge_target_witness:
  "\<exists>a edge. build_dependency_graph fs_scenario [''proj''] = Inr a
     \<and> edge \<in> set (edges a) \<and> \<not> is_external edge
     \<and> to_file edge = ''src/Foo.tsx''
     \<and> to_file edge \<in> fst ` set (nodes a)
     \<and> (\<exists>target. to_file edge = path_str (drop (length [''proj'']) target)
           \<and> prefix [''proj''] target \<and> fs_exists fs_scenario target
           \<and> (\<exists>e \<in> set extensions. suffix e (last target))
           \<and> (strict_prefix (src_root [''proj'']) target \<or> butlast target = [''proj'']
                \<longrightarrow> to_file edge \<in> fst ` set (nodes a)))"
proof -
  have "case build_dependency_graph fs_scenario [''proj''] of
          Inl e \<Rightarrow> False
        | Inr a \<Rightarrow> list_ex (\<lambda>edge. \<not> is_external edge \<and> to_file edge = ''src/Foo.tsx''
                                 \<and> to_file edge \<in> set (map fst (nodes a))) (edges a)"
    by code_simp
  then obtain a where a: "build_dependency_graph fs_scenario [''proj''] = Inr a"
    and "list_ex (\<lambda>edge. \<not> is_external edge \<and> to_file edge = ''src/Foo.tsx''
                                 \<and> to_file edge \<in> set (map fst (nodes a))) (edges a)"
    by (cases "build_dependency_graph fs_scenario [''proj'']") simp_all
  then obtain edge where e: "edge \<in> set (edges a)" "\<not> is_external edge"
      "to_file edge = ''src/Foo.tsx''" "to_file edge \<in> set (map fst (nodes a))"
    unfolding list_ex_iff by blast
  from e(4) have n: "to_file edge \<in> fst ` set (nodes a)" by simp
  from internal_edge_target [OF a e(1,2)] a e(1-3) n show ?thesis
    by blast
qed

subsection \<open>The written document and the report\<close>

text \<open>
  \<^bold>\<open>Claim C8\<close> (as amended). Nothing checks the finished graph before it is written:
  for every analyzer state \<^verbatim>\<open>save_outputs\<close> writes both files, and the document
  is that of \<^verbatim>\<open>generate_json_output\<close>, which lists every node and every internal
  edge of the state, whether or not each edge's target is a node.
\<close>

theorem save_outputs_unconditional:
  "\<exists>doc diagram. save_outputs a =
       [(''dep-graph.json'', JsonFile doc), (''dep-graph.mmd'', TextFile diagram)]
     \<and> doc = generate_json_output a
     \<and> doc_nodes doc = map snd (nodes a)
     \<and> doc_edges doc = filter (\<lambda>edge. \<not> is_external edge) (edges a)
     \<and> totalImports (doc_stats doc) = length (filter (\<lambda>edge. \<not> is_external edge) (edges a))"
  by (simp add: save_outputs_def generate_json_output_def Let_def)

lemma dangling_diagram: "generate_mermaid_output dangling_state = ''graph TD''"
  by code_simp

text \<open>
  Claim C8 as stated fails: the graph built from the tree with \<^verbatim>\<open>scripts/foo.ts\<close>
  has an edge to a target that is no node, and the document with that edge is written.
\<close>

theorem dangling_edge_serialized:
  "\<exists>a doc. build_dependency_graph fs_dangling [''proj''] = Inr a
     \<and> save_outputs a =
         [(''dep-graph.json'', JsonFile doc), (''dep-graph.mmd'', TextFile ''graph TD'')]
     \<and> map node_id (doc_nodes doc) = [''src/a.ts'']
     \<and> map to_file (doc_edges doc) = [''scripts/foo.ts'']
     \<and> totalImports (doc_stats doc) = 1"
  unfolding build_dangling
  by (intro exI [of _ dangling_state] exI [of _ "generate_json_output dangling_state"])
     (simp add: save_outputs_def dangling_diagram,
      simp add: generate_json_output_def dangling_state_def Let_def)

text \<open>The amended statement of C8 at the state built from that tree.\<close>

theorem save_outputs_unconditional_witness:
  "\<exists>doc diagram. save_outputs dangling_state =
       [(''dep-graph.json'', JsonFile doc), (''dep-graph.mmd'', TextFile diagram)]
     \<and> map to_file (doc_edges doc) = [''scripts/foo.ts'']
     \<and> map node_id (doc_nodes doc) = [''src/a.ts'']"
proof -
  from save_outputs_unconditional [of dangling_state] obtain doc diagram where
    d: "save_outputs dangling_state =
          [(''dep-graph.json'', JsonFile doc), (''dep-graph.mmd'', TextFile diagram)]"
       "doc_nodes doc = map snd (nodes dangling_state)"
       "doc_edges doc = filter (\<lambda>edge. \<not> is_external edge) (edges dangling_state)"
    by blast
  have "map to_file (doc_edges doc) = [''scripts/foo.ts'']"
    "map node_id (doc_nodes doc) = [''src/a.ts'']"
    unfolding d(2,3) by (simp_all add: dangling_state_def)
  with d(1) show ?thesis by (intro exI conjI)
qed

text \<open>
  \<^bold>\<open>Claim C10.\<close> The coverage ratio never fails: it always has a value, and that value
  is 0 when no node has role component, service, utility or hook.
\<close>

theorem test_ratio_total:
  "(\<exists>r. test_ratio graph_data = Inr r)
   \<and> (source_files_of graph_data = [] \<longrightarrow> test_ratio graph_data = Inr 0)"
  by (simp add: test_ratio_def py_truediv_def)

text \<open>Claim C10 on a document with one entry node and one test node.\<close>

theorem test_ratio_total_witness:
  "source_files_of doc_no_sources = [] \<and> length (test_files_of doc_no_sources) = 1
   \<and> test_ratio doc_no_sources = Inr 0"
proof -
  have h: "source_files_of doc_no_sources = [] \<and> length (test_files_of doc_no_sources) = 1"
    by code_simp
  with test_ratio_total [of doc_no_sources] show ?thesis by simp
qed

end
